theory Spec2Isabelle
  imports Main "HOL-Library.Sublist" "HOL-Library.AList"
    "HOL-Library.Char_ord" "HOL-Library.List_Lexorder"
begin

section \<open>Strings and arrays of the host language\<close>

text \<open>
  JavaScript strings are modelled as \<^typ>\<open>string\<close> (lists of characters), arrays as
  lists. The helpers below are the built-ins the sources call: \<open>String.split\<close> with a
  one-character separator, \<open>Array.join\<close>, \<open>String.startsWith\<close>, \<open>String.includes\<close>,
  \<open>String.trim\<close> and the regular expression class \<open>\s\<close>.
\<close>

fun splitOn :: "char \<Rightarrow> string \<Rightarrow> string list" where
  "splitOn d [] = [[]]"
| "splitOn d (c # cs) =
     (if c = d then [] # splitOn d cs
      else (case splitOn d cs of [] \<Rightarrow> [[c]] | r # rs \<Rightarrow> (c # r) # rs))"

fun join :: "string \<Rightarrow> string list \<Rightarrow> string" where
  "join sep [] = []"
| "join sep [x] = x"
| "join sep (x # y # ys) = x @ sep @ join sep (y # ys)"

definition startsWith :: "string \<Rightarrow> string \<Rightarrow> bool" where
  "startsWith s p = (take (length p) s = p)"

text \<open>
  The characters matched by \<open>\s\<close> and removed by \<open>trim\<close>, among the code units
  below 256: tab, line feed, vertical tab, form feed, carriage return, space and
  no-break space.
\<close>

definition isSpace :: "char \<Rightarrow> bool" where
  "isSpace c = (c \<in> set [CHR 0x09, CHR 0x0A, CHR 0x0B, CHR 0x0C, CHR 0x0D, CHR 0x20, CHR 0xA0])"

definition trim :: "string \<Rightarrow> string" where
  "trim s = rev (dropWhile isSpace (rev (dropWhile isSpace s)))"

text \<open>\<open>s.includes(pat)\<close>: \<open>pat\<close> starts at some position of \<open>s\<close>.\<close>

fun includesStr :: "string \<Rightarrow> string \<Rightarrow> bool" where
  "includesStr [] pat = (pat = [])"
| "includesStr (c # cs) pat = (startsWith (c # cs) pat \<or> includesStr cs pat)"

text \<open>Decimal rendering of a number inside a template string.\<close>

definition digit :: "nat \<Rightarrow> char" where
  "digit n = char_of (48 + n)"

fun natToString :: "nat \<Rightarrow> string" where
  "natToString n = (if n < 10 then [digit n] else natToString (n div 10) @ [digit (n mod 10)])"

declare natToString.simps [simp del]

section \<open>Virtual filesystem state\<close>

datatype filetype = Text | Blob

record FileNode =
  ftype :: filetype
  content :: string
  mtime :: nat

record vfs =
  cwd :: string
  files :: "(string \<times> FileNode) list"
  history :: "string list"

section \<open>Path normalisation\<close>

text \<open>
  \<open>normalizePath\<close> of the VFS: a relative path is prefixed with the working directory,
  the path is split on \<open>/\<close>, empty and \<open>.\<close> segments are dropped, and the remaining
  segments drive a stack: \<open>..\<close> pops (\<open>Array.pop\<close> on an empty array is a no-op,
  as \<^const>\<open>butlast\<close> on \<open>[]\<close>), anything else is pushed. The source has no
  \<open>throw\<close> and no failing call on a string argument, so the model has no error branch.
\<close>

definition absolute :: "vfs \<Rightarrow> string \<Rightarrow> string" where
  "absolute st path = (if startsWith path ''/'' then path else cwd st @ ''/'' @ path)"

definition segments :: "string \<Rightarrow> string list" where
  "segments path = filter (\<lambda>p. p \<noteq> [] \<and> p \<noteq> ''.'') (splitOn CHR ''/'' path)"

definition resolveStep :: "string list \<Rightarrow> string \<Rightarrow> string list" where
  "resolveStep stack part = (if part = ''..'' then butlast stack else stack @ [part])"

definition resolve :: "string list \<Rightarrow> string list" where
  "resolve parts = foldl resolveStep [] parts"

definition normalizePath :: "vfs \<Rightarrow> string \<Rightarrow> string" where
  "normalizePath st path = ''/'' @ join ''/'' (resolve (segments (absolute st path)))"

text \<open>The depth of a path from the root: the number of segments its normal form keeps.\<close>

definition depth :: "vfs \<Rightarrow> string \<Rightarrow> nat" where
  "depth st path = length (resolve (segments (absolute st path)))"

text \<open>\<open>n\<close> parent segments appended to a path, and a path of \<open>n\<close> parent segments.\<close>

definition ups :: "nat \<Rightarrow> string" where
  "ups n = concat (replicate n ''/..'')"

definition dotdots :: "nat \<Rightarrow> string" where
  "dotdots n = join ''/'' (replicate n ''..'')"

section \<open>Virtual filesystem operations\<close>

text \<open>
  What a JavaScript \<open>throw\<close> carries: the message of the \<open>Error\<close>. The outside world
  is a parameter: the network (\<open>safeFetch\<close>'s answer for a URL), whether the backing
  medium accepts the state it is asked to hold, and the clock (\<open>Date.now()\<close>).
\<close>

datatype js_error = JsError string

fun message :: "js_error \<Rightarrow> string" where
  "message (JsError m) = m"

record fetch_result =
  f_ok :: bool
  f_status :: nat
  f_text :: string
  f_error :: "string option"

record env =
  fetch :: "string \<Rightarrow> fetch_result"
  persist :: "vfs \<Rightarrow> bool"
  now :: nat

text \<open>
  Modelled from the spec: \<open>saveState\<close> (only its call is under \<open>src/\<close>). It persists
  the entire state through the store, and \<open>StorageAdapter.set\<close> throws
  \<open>Storage set failed\<close> when \<open>localStorage\<close> refuses the write.
\<close>

definition saveState :: "env \<Rightarrow> vfs \<Rightarrow> js_error + unit" where
  "saveState e st = (if persist e st then Inr () else Inl (JsError ''Storage set failed''))"

text \<open>
  \<open>write\<close> normalises the path, stores a text node with the current time in the
  in-memory state, then persists the state. The state is updated before the
  persisting call, so it is returned updated also when persisting throws.
\<close>

definition vfs_write :: "env \<Rightarrow> string \<Rightarrow> string \<Rightarrow> vfs \<Rightarrow> (js_error + unit) \<times> vfs" where
  "vfs_write e path c st =
     (let p = normalizePath st path;
          st' = st\<lparr>files := AList.update p \<lparr>ftype = Text, content = c, mtime = now e\<rparr> (files st)\<rparr>
      in (saveState e st', st'))"

text \<open>
  Modelled from the spec: the body of \<open>read\<close> around its guard. The source under
  \<open>src/\<close> shows the guard \<open>if (!file || file.type !== 'text') throw new Error('ENOENT')\<close>;
  that \<open>file\<close> is the node stored at the normalised path and that the content of the
  node is returned follows the spec (``fails with NotFound if no FileNode exists at the
  normalized path or its type is not text-like'').
\<close>

definition vfs_read :: "vfs \<Rightarrow> string \<Rightarrow> js_error + string" where
  "vfs_read st path =
     (case map_of (files st) (normalizePath st path) of
        None \<Rightarrow> Inl (JsError ''ENOENT'')
      | Some file \<Rightarrow> if ftype file \<noteq> Text then Inl (JsError ''ENOENT'') else Inr (content file))"

text \<open>
  Modelled from the spec: \<open>list\<close> (\<open>lib/vfs.js\<close> is not under \<open>src/\<close>). It normalises
  the directory and returns the lexicographically ordered, deduplicated immediate
  children one path segment below it, files and implied sub-paths alike, as paths.
\<close>

definition vfs_list :: "vfs \<Rightarrow> string \<Rightarrow> string list" where
  "vfs_list st dir =
     (let d = resolve (segments (absolute st dir));
          below = filter (\<lambda>ps. length d < length ps \<and> take (length d) ps = d)
                    (map (\<lambda>(p, node). segments p) (files st))
      in remdups_adj (sort (map (\<lambda>ps. ''/'' @ join ''/'' (take (Suc (length d)) ps)) below)))"

section \<open>Persistent key-value store\<close>

text \<open>
  \<open>StorageAdapter.get\<close>: \<open>localStorage.getItem\<close> under the prefixed key, then
  \<open>val ? JSON.parse(val) : null\<close> inside a \<open>try\<close> whose \<open>catch\<close> returns \<open>null\<close>.
  \<open>JSON.parse\<close> is a parameter (\<open>None\<close> when it throws). The console log is threaded
  through so that what the function writes to it can be stated: it writes nothing.
\<close>

datatype json = JNull | JBool bool | JNum int | JStr string
  | JArr "json list" | JObj "(string \<times> json) list"

record storage =
  storePrefix :: string
  items :: "(string \<times> string) list"

definition get ::
  "(string \<Rightarrow> json option) \<Rightarrow> storage \<Rightarrow> string \<Rightarrow> string list \<Rightarrow> json \<times> string list" where
  "get parse s key log =
     (case map_of (items s) (storePrefix s @ key) of
        None \<Rightarrow> (JNull, log)
      | Some val \<Rightarrow>
          if val = [] then (JNull, log)
          else (case parse val of None \<Rightarrow> (JNull, log) | Some v \<Rightarrow> (v, log)))"

section \<open>Command results and the built-in commands\<close>

text \<open>
  A handler returns an object literal that may leave fields out (\<open>{ stdout: ... }\<close>,
  \<open>{ stderr: ... }\<close>, \<open>{ stderr: ..., exitCode: 1 }\<close>); a CommandResult has all three.
\<close>

record handler_result =
  r_stdout :: "string option"
  r_stderr :: "string option"
  r_exitCode :: "int option"

record cmd_result =
  stdout :: string
  stderr :: string
  exitCode :: int

text \<open>
  Modelled from the spec: the defaults of a CommandResult, applied by the executor to
  what a handler returns (\<open>stdout\<close> and \<open>stderr\<close> empty, \<open>exitCode\<close> 0).
\<close>

definition withDefaults :: "handler_result \<Rightarrow> cmd_result" where
  "withDefaults r =
     \<lparr>stdout = (case r_stdout r of None \<Rightarrow> [] | Some s \<Rightarrow> s),
      stderr = (case r_stderr r of None \<Rightarrow> [] | Some s \<Rightarrow> s),
      exitCode = (case r_exitCode r of None \<Rightarrow> 0 | Some n \<Rightarrow> n)\<rparr>"

definition onlyStdout :: "string \<Rightarrow> handler_result" where
  "onlyStdout s = \<lparr>r_stdout = Some s, r_stderr = None, r_exitCode = None\<rparr>"

definition onlyStderr :: "string \<Rightarrow> handler_result" where
  "onlyStderr s = \<lparr>r_stdout = None, r_stderr = Some s, r_exitCode = None\<rparr>"

text \<open>
  A handler receives the world, the sorted names of the registry (\<open>registry.list()\<close>),
  its arguments, its standard input and the filesystem; it throws or returns, and
  leaves the filesystem in a new state.
\<close>

type_synonym handler =
  "env \<Rightarrow> string list \<Rightarrow> string list \<Rightarrow> string \<Rightarrow> vfs \<Rightarrow> (js_error + handler_result) \<times> vfs"

definition helpFlag :: "string list \<Rightarrow> bool" where
  "helpFlag as = (''--help'' \<in> set as \<or> ''-h'' \<in> set as)"

definition echo_cmd :: handler where
  "echo_cmd e names as sin st =
     (if helpFlag as then
        (Inr (onlyStdout ''echo: print arguments to stdout\<newline>Usage: echo [options] [args...]\<newline>Options:\<newline>  --help, -h  Show this help\<newline>''), st)
      else (Inr (onlyStdout (join '' '' as @ ''\<newline>'')), st))"

text \<open>\<open>vfs.cwd()\<close> is the working directory of the state.\<close>

definition pwd_cmd :: handler where
  "pwd_cmd e names as sin st =
     (if helpFlag as then
        (Inr (onlyStdout ''pwd: print working directory\<newline>Usage: pwd [options]\<newline>Options:\<newline>  --help, -h  Show this help\<newline>''), st)
      else (Inr (onlyStdout (cwd st @ ''\<newline>'')), st))"

text \<open>
  With no argument \<open>args[0]\<close> is \<open>undefined\<close>, and \<open>normalizePath\<close> throws a
  TypeError on \<open>path.startsWith\<close> (the message is the engine's).
\<close>

definition write_cmd :: handler where
  "write_cmd e names as sin st =
     (if helpFlag as then
        (Inr (onlyStdout ''write: write content to file\<newline>Usage: write [options] <path> <content>\<newline>Options:\<newline>  --help, -h  Show this help\<newline>''), st)
      else (case as of
          [] \<Rightarrow> (Inl (JsError ''Cannot read properties of undefined (reading 'startsWith')''), st)
        | path # cs \<Rightarrow>
            (case vfs_write e path (join '' '' cs) st of
               (Inl err, st') \<Rightarrow> (Inl err, st')
             | (Inr u, st') \<Rightarrow> (Inr (onlyStdout (''Wrote '' @ path @ ''\<newline>'')), st'))))"

definition cat_cmd :: handler where
  "cat_cmd e names as sin st =
     (if helpFlag as then
        (Inr (onlyStdout ''cat: concatenate files or stdin\<newline>Usage: cat [options] [file]\<newline>Options:\<newline>  --help, -h  Show this help\<newline>''), st)
      else (case as of
          [] \<Rightarrow> (Inr (onlyStdout sin), st)
        | path # rest \<Rightarrow>
            (case vfs_read st path of
               Inr txt \<Rightarrow> (Inr (onlyStdout txt), st)
             | Inl err \<Rightarrow>
                 (Inr \<lparr>r_stdout = None,
                       r_stderr = Some (''cat: '' @ path @ '': No such file\<newline>''),
                       r_exitCode = Some 1\<rparr>, st))))"

text \<open>\<open>args[0] || '/'\<close>: the first argument unless it is missing or empty.\<close>

definition lsDir :: "string list \<Rightarrow> string" where
  "lsDir as = (case as of [] \<Rightarrow> ''/'' | d # rest \<Rightarrow> if d = [] then ''/'' else d)"

definition ls_cmd :: handler where
  "ls_cmd e names as sin st =
     (if helpFlag as then
        (Inr (onlyStdout ''ls: list directory contents\<newline>Usage: ls [options] [dir]\<newline>Options:\<newline>  --help, -h  Show this help\<newline>''), st)
      else (let dir = lsDir as;
                list = vfs_list st dir
            in (Inr (onlyStdout (join ''\<newline>'' list @ (if list \<noteq> [] then ''\<newline>'' else []))), st)))"

definition history_cmd :: handler where
  "history_cmd e names as sin st =
     (if helpFlag as then
        (Inr (onlyStdout ''history: show command history\<newline>Usage: history [options]\<newline>Options:\<newline>  --help, -h  Show this help\<newline>''), st)
      else (Inr (onlyStdout (join ''\<newline>'' (history st) @ ''\<newline>'')), st))"

definition curl_cmd :: handler where
  "curl_cmd e names as sin st =
     (if helpFlag as then
        (Inr (onlyStdout ''curl: fetch URL content\<newline>Usage: curl [options] <url>\<newline>Options:\<newline>  --help, -h  Show this help\<newline>''), st)
      else (case as of
          [] \<Rightarrow> (Inr (onlyStderr ''curl: missing url\<newline>''), st)
        | url # rest \<Rightarrow>
            if url = [] then (Inr (onlyStderr ''curl: missing url\<newline>''), st)
            else (let r = fetch e url in
                  if \<not> f_ok r then
                    (Inr (onlyStderr (''curl: failed: '' @
                       (case f_error r of
                          None \<Rightarrow> natToString (f_status r)
                        | Some m \<Rightarrow> if m = [] then natToString (f_status r) else m) @ ''\<newline>'')), st)
                  else (Inr (onlyStdout (f_text r)), st))))"

definition grep_cmd :: handler where
  "grep_cmd e names as sin st =
     (if helpFlag as then
        (Inr (onlyStdout ''grep: search for pattern in input\<newline>Usage: grep [options] <pattern>\<newline>Options:\<newline>  --help, -h  Show this help\<newline>''), st)
      else (case as of
          [] \<Rightarrow> (Inr (onlyStderr ''grep: missing pattern\<newline>''), st)
        | pattern # rest \<Rightarrow>
            if pattern = [] then (Inr (onlyStderr ''grep: missing pattern\<newline>''), st)
            else (let lines = filter (\<lambda>l. trim l \<noteq> []) (splitOn CHR 0x0A sin);
                      matches = filter (\<lambda>line. includesStr line pattern) lines
                  in (Inr (onlyStdout (join ''\<newline>'' matches @
                        (if matches \<noteq> [] then ''\<newline>'' else []))), st))))"

definition help_cmd :: handler where
  "help_cmd e names as sin st =
     (if helpFlag as then
        (Inr (onlyStdout ''help: show available commands\<newline>Usage: help [options] [command]\<newline>Options:\<newline>  --help, -h  Show this help\<newline>''), st)
      else (Inr (onlyStdout (''Available commands:\<newline>'' @ join ''\<newline>'' names @
              ''\<newline>Use <command> --help for details.\<newline>'')), st))"

text \<open>
  What the interface table says of \<open>grep\<close>, in its words: the lines of the input,
  blank lines dropped, those that contain the pattern as a substring kept.
\<close>

definition blank :: "string \<Rightarrow> bool" where
  "blank l = (\<forall>c \<in> set l. isSpace c)"

definition grepSpec :: "string \<Rightarrow> string \<Rightarrow> string list" where
  "grepSpec pat sin = filter (\<lambda>l. \<not> blank l \<and> sublist pat l) (splitOn CHR 0x0A sin)"

text \<open>The usage string of each built-in command: the literal of its handler.\<close>

definition usage :: "string \<Rightarrow> string" where
  "usage name =
     (if name = ''echo'' then ''echo: print arguments to stdout\<newline>Usage: echo [options] [args...]\<newline>Options:\<newline>  --help, -h  Show this help\<newline>''
      else if name = ''pwd'' then ''pwd: print working directory\<newline>Usage: pwd [options]\<newline>Options:\<newline>  --help, -h  Show this help\<newline>''
      else if name = ''write'' then ''write: write content to file\<newline>Usage: write [options] <path> <content>\<newline>Options:\<newline>  --help, -h  Show this help\<newline>''
      else if name = ''cat'' then ''cat: concatenate files or stdin\<newline>Usage: cat [options] [file]\<newline>Options:\<newline>  --help, -h  Show this help\<newline>''
      else if name = ''ls'' then ''ls: list directory contents\<newline>Usage: ls [options] [dir]\<newline>Options:\<newline>  --help, -h  Show this help\<newline>''
      else if name = ''history'' then ''history: show command history\<newline>Usage: history [options]\<newline>Options:\<newline>  --help, -h  Show this help\<newline>''
      else if name = ''curl'' then ''curl: fetch URL content\<newline>Usage: curl [options] <url>\<newline>Options:\<newline>  --help, -h  Show this help\<newline>''
      else if name = ''grep'' then ''grep: search for pattern in input\<newline>Usage: grep [options] <pattern>\<newline>Options:\<newline>  --help, -h  Show this help\<newline>''
      else if name = ''help'' then ''help: show available commands\<newline>Usage: help [options] [command]\<newline>Options:\<newline>  --help, -h  Show this help\<newline>''
      else [])"

text \<open>The registry after the registrations of the terminal application, in their order.\<close>

definition builtins :: "(string \<times> handler) list" where
  "builtins =
     [(''echo'', echo_cmd), (''pwd'', pwd_cmd), (''write'', write_cmd), (''cat'', cat_cmd),
      (''ls'', ls_cmd), (''history'', history_cmd), (''curl'', curl_cmd),
      (''grep'', grep_cmd), (''help'', help_cmd)]"

section \<open>The lexer of the terminal application\<close>

text \<open>
  \<open>shellSplit\<close>: one pass over the characters with the tokens so far, the current
  token, the open quote (if any) and the escape flag; after the loop the current token
  is pushed when it is not empty. Nothing looks at the open quote after the loop.
\<close>

record lexer =
  out :: "string list"
  cur :: string
  qi :: "char option"
  esc :: bool

definition lexStep :: "lexer \<Rightarrow> char \<Rightarrow> lexer" where
  "lexStep s ch =
     (if esc s then s\<lparr>cur := cur s @ [ch], esc := False\<rparr>
      else if ch = CHR 0x5C then s\<lparr>esc := True\<rparr>
      else (case qi s of
          Some q \<Rightarrow> if ch = q then s\<lparr>qi := None\<rparr> else s\<lparr>cur := cur s @ [ch]\<rparr>
        | None \<Rightarrow>
            if ch = CHR 0x22 \<or> ch = CHR 0x27 then s\<lparr>qi := Some ch\<rparr>
            else if isSpace ch then
              (if cur s \<noteq> [] then s\<lparr>out := out s @ [cur s], cur := []\<rparr> else s)
            else s\<lparr>cur := cur s @ [ch]\<rparr>))"

definition lexRun :: "string \<Rightarrow> lexer" where
  "lexRun s = foldl lexStep \<lparr>out = [], cur = [], qi = None, esc = False\<rparr> s"

definition shellSplit :: "string \<Rightarrow> string list" where
  "shellSplit s = (let l = lexRun s in if cur l \<noteq> [] then out l @ [cur l] else out l)"

section \<open>The pipeline executor\<close>

text \<open>
  Modelled from the spec: the Executor and the Registry (\<open>lib/executor.js\<close> and
  \<open>lib/registry.js\<close> are not under \<open>src/\<close>; only their callers are).

  Lexing follows the spec's section 4.4: the line is split on whitespace outside
  quotes, single and double quotes suppress the splitting, a backslash takes the next
  character literally, and an unterminated quote is a ParseError. A token that is
  exactly \<open>|\<close>, \<open>>\<close> or \<open>>>\<close> with no quoted or escaped character is an operator.
\<close>

datatype redirect_mode = Overwrite | Append

datatype token = Word string | Pipe | Redir redirect_mode

datatype parse_error = ParseError

record stage =
  commandName :: string
  args :: "string list"
  redirect :: "(string \<times> redirect_mode) option"

record xlexer =
  toks :: "token list"
  word :: string
  lit :: bool
  quote :: "char option"
  escaped :: bool

definition classify :: "bool \<Rightarrow> string \<Rightarrow> token" where
  "classify l w =
     (if l then Word w
      else if w = ''|'' then Pipe
      else if w = ''>'' then Redir Overwrite
      else if w = ''>>'' then Redir Append
      else Word w)"

definition flush :: "xlexer \<Rightarrow> xlexer" where
  "flush s =
     (if word s \<noteq> [] then s\<lparr>toks := toks s @ [classify (lit s) (word s)], word := [], lit := False\<rparr>
      else s\<lparr>lit := False\<rparr>)"

definition xlexStep :: "xlexer \<Rightarrow> char \<Rightarrow> xlexer" where
  "xlexStep s ch =
     (if escaped s then s\<lparr>word := word s @ [ch], lit := True, escaped := False\<rparr>
      else if ch = CHR 0x5C then s\<lparr>escaped := True\<rparr>
      else (case quote s of
          Some q \<Rightarrow> if ch = q then s\<lparr>quote := None\<rparr> else s\<lparr>word := word s @ [ch]\<rparr>
        | None \<Rightarrow>
            if ch = CHR 0x22 \<or> ch = CHR 0x27 then s\<lparr>quote := Some ch, lit := True\<rparr>
            else if isSpace ch then flush s
            else s\<lparr>word := word s @ [ch]\<rparr>))"

definition xlexRun :: "string \<Rightarrow> xlexer" where
  "xlexRun s = foldl xlexStep \<lparr>toks = [], word = [], lit = False, quote = None, escaped = False\<rparr> s"

definition lexLine :: "string \<Rightarrow> parse_error + token list" where
  "lexLine s = (let l = xlexRun s in if quote l \<noteq> None then Inl ParseError else Inr (toks (flush l)))"




text \<open>The text of a token, to compare the tokens of the two lexers.\<close>

fun tokenText :: "token \<Rightarrow> string" where
  "tokenText (Word w) = w"
| "tokenText Pipe = ''|''"
| "tokenText (Redir Overwrite) = ''>''"
| "tokenText (Redir Append) = ''>>''"

text \<open>
  Modelled from the spec: stage splitting (section 4.4). The tokens are split on the
  pipe operator; a stage is a command name and its arguments; the final stage may end
  in a redirection operator and a target; a redirection anywhere else, and a stage
  without a command name, is a ParseError.
\<close>

fun splitPipes :: "token list \<Rightarrow> token list list" where
  "splitPipes [] = [[]]"
| "splitPipes (t # ts) =
     (if t = Pipe then [] # splitPipes ts
      else (case splitPipes ts of [] \<Rightarrow> [[t]] | r # rs \<Rightarrow> (t # r) # rs))"

fun wordsOf :: "token list \<Rightarrow> string list option" where
  "wordsOf [] = Some []"
| "wordsOf (Word w # ts) = map_option ((#) w) (wordsOf ts)"
| "wordsOf (t # ts) = None"

definition plainStage :: "token list \<Rightarrow> parse_error + stage" where
  "plainStage ts =
     (case wordsOf ts of
        Some (c # as) \<Rightarrow> Inr \<lparr>commandName = c, args = as, redirect = None\<rparr>
      | _ \<Rightarrow> Inl ParseError)"

definition finalStage :: "token list \<Rightarrow> parse_error + stage" where
  "finalStage ts =
     (case rev ts of
        Word target # Redir m # front \<Rightarrow>
          (case wordsOf (rev front) of
             Some (c # as) \<Rightarrow> Inr \<lparr>commandName = c, args = as, redirect = Some (target, m)\<rparr>
           | _ \<Rightarrow> Inl ParseError)
      | _ \<Rightarrow> plainStage ts)"

fun mkStages :: "token list list \<Rightarrow> parse_error + stage list" where
  "mkStages [] = Inr []"
| "mkStages [ts] = (case finalStage ts of Inl err \<Rightarrow> Inl err | Inr s \<Rightarrow> Inr [s])"
| "mkStages (ts # rest) =
     (case plainStage ts of
        Inl err \<Rightarrow> Inl err
      | Inr s \<Rightarrow> (case mkStages rest of Inl err \<Rightarrow> Inl err | Inr ss \<Rightarrow> Inr (s # ss)))"

definition parseLine :: "string \<Rightarrow> parse_error + stage list" where
  "parseLine line = (case lexLine line of Inl err \<Rightarrow> Inl err | Inr ts \<Rightarrow> mkStages (splitPipes ts))"

text \<open>
  Modelled from the spec: execution and aggregation (sections 4.3 and 4.4), stage by
  stage from the left. The registry is a mapping from names to handlers; its \<open>list\<close>
  is the sorted names. A stage whose name does not resolve ends the line with
  \<open>command not found\<close> and exit code 127. A handler that throws ends the line with its
  message and exit code 1; a handler that returns a non-zero exit code ends the line
  with its result. Otherwise the stage's stdout is the next stage's stdin. After the
  final stage, a redirection writes the stdout into the filesystem (appending to the
  present content for \<open>>>\<close>) and empties it. The run also records the names of the
  stages whose handlers were called, in order.

  The spec does not say whether the names of all stages are resolved before stage 0
  runs, or each name when its stage is reached. The order is a parameter of the model:
  with \<open>UpFront\<close> the first unresolved name ends the line before any handler is
  called, with \<open>WhenReached\<close> the stages before it run first.
\<close>

datatype resolution = UpFront | WhenReached

definition notFound :: "string \<Rightarrow> cmd_result" where
  "notFound name = \<lparr>stdout = [], stderr = name @ '': command not found\<newline>'', exitCode = 127\<rparr>"

definition firstUnresolved :: "(string \<times> handler) list \<Rightarrow> stage list \<Rightarrow> stage option" where
  "firstUnresolved reg stages = find (\<lambda>s. map_of reg (commandName s) = None) stages"

record run =
  outcome :: cmd_result
  final :: vfs
  executed :: "string list"

definition applyRedirect :: "env \<Rightarrow> vfs \<Rightarrow> cmd_result \<Rightarrow> string \<times> redirect_mode \<Rightarrow> cmd_result \<times> vfs" where
  "applyRedirect e st r rd =
     (let target = fst rd;
          present = (case vfs_read st target of Inr c \<Rightarrow> c | Inl err \<Rightarrow> []);
          text = (case snd rd of Overwrite \<Rightarrow> stdout r | Append \<Rightarrow> present @ stdout r)
      in (case vfs_write e target text st of
            (Inl err, st') \<Rightarrow> (\<lparr>stdout = [], stderr = message err, exitCode = 1\<rparr>, st')
          | (Inr u, st') \<Rightarrow> (r\<lparr>stdout := []\<rparr>, st')))"

fun runStages :: "env \<Rightarrow> (string \<times> handler) list \<Rightarrow> vfs \<Rightarrow> cmd_result \<Rightarrow> stage list \<Rightarrow> run" where
  "runStages e reg st prev [] = \<lparr>outcome = prev, final = st, executed = []\<rparr>"
| "runStages e reg st prev (s # ss) =
     (case map_of reg (commandName s) of
        None \<Rightarrow> \<lparr>outcome = notFound (commandName s), final = st, executed = []\<rparr>
      | Some h \<Rightarrow>
          (case h e (sort (map fst reg)) (args s) (stdout prev) st of
             (Inl err, st') \<Rightarrow>
               \<lparr>outcome = \<lparr>stdout = [], stderr = message err, exitCode = 1\<rparr>,
                final = st', executed = [commandName s]\<rparr>
           | (Inr raw, st') \<Rightarrow>
               (let r = withDefaults raw in
                if exitCode r \<noteq> 0 then \<lparr>outcome = r, final = st', executed = [commandName s]\<rparr>
                else if ss = [] then
                  (case redirect s of
                     None \<Rightarrow> \<lparr>outcome = r, final = st', executed = [commandName s]\<rparr>
                   | Some rd \<Rightarrow>
                       (let (r', st'') = applyRedirect e st' r rd
                        in \<lparr>outcome = r', final = st'', executed = [commandName s]\<rparr>))
                else (let rest = runStages e reg st' r ss
                      in rest\<lparr>executed := commandName s # executed rest\<rparr>))))"

text \<open>Modelled from the spec: stage 0 receives empty stdin; nothing has failed yet.\<close>

definition start :: cmd_result where
  "start = \<lparr>stdout = [], stderr = [], exitCode = 0\<rparr>"

text \<open>
  Modelled from the spec: \<open>runLine\<close>. A line that does not parse executes nothing
  and leaves the filesystem as it was.
\<close>

record line_run =
  result :: "parse_error + cmd_result"
  state :: vfs
  trace :: "string list"

definition runLine ::
  "resolution \<Rightarrow> env \<Rightarrow> (string \<times> handler) list \<Rightarrow> vfs \<Rightarrow> string \<Rightarrow> line_run" where
  "runLine ord e reg st line =
     (case parseLine line of
        Inl err \<Rightarrow> \<lparr>result = Inl err, state = st, trace = []\<rparr>
      | Inr stages \<Rightarrow>
          (case (if ord = UpFront then firstUnresolved reg stages else None) of
             Some s \<Rightarrow> \<lparr>result = Inr (notFound (commandName s)), state = st, trace = []\<rparr>
           | None \<Rightarrow>
               (let r = runStages e reg st start stages
                in \<lparr>result = Inr (outcome r), state = final r, trace = executed r\<rparr>)))"

text \<open>A world for concrete runs: no network, a store that accepts every write.\<close>

definition offline :: env where
  "offline =
     \<lparr>fetch = (\<lambda>url. \<lparr>f_ok = False, f_status = 0, f_text = [], f_error = Some ''Failed to fetch''\<rparr>),
      persist = (\<lambda>st. True), now = 0\<rparr>"

definition emptyVfs :: vfs where
  "emptyVfs = \<lparr>cwd = ''/'', files = [], history = []\<rparr>"

section \<open>Lemmas on splitting and joining\<close>

lemma splitOn_nonempty: "splitOn d s \<noteq> []"
  by (induction s) (auto split: list.splits)

lemma splitOn_append_sep: "splitOn d (xs @ d # ys) = splitOn d xs @ splitOn d ys"
proof (induction xs)
  case Nil
  then show ?case by simp
next
  case (Cons c cs)
  then show ?case
    using splitOn_nonempty [of d cs] by (cases "splitOn d cs") auto
qed

lemma splitOn_no_sep: "d \<notin> set s \<Longrightarrow> splitOn d s = [s]"
  by (induction s) auto

lemma splitOn_parts_no_sep: "p \<in> set (splitOn d s) \<Longrightarrow> d \<notin> set p"
proof (induction s arbitrary: p)
  case Nil
  then show ?case by simp
next
  case (Cons c cs)
  show ?case
  proof (cases "c = d")
    case True
    with Cons show ?thesis by auto
  next
    case False
    obtain r rs where rs: "splitOn d cs = r # rs"
      using splitOn_nonempty [of d cs] by (cases "splitOn d cs") auto
    with False Cons.prems have "p = c # r \<or> p \<in> set rs" by auto
    then show ?thesis
    proof
      assume "p = c # r"
      moreover have "d \<notin> set r" using Cons.IH [of r] rs by simp
      ultimately show ?thesis using False by auto
    next
      assume "p \<in> set rs"
      then show ?thesis using Cons.IH [of p] rs by simp
    qed
  qed
qed

lemma splitOn_join:
  "xs \<noteq> [] \<Longrightarrow> \<forall>x \<in> set xs. d \<notin> set x \<Longrightarrow> splitOn d (join [d] xs) = xs"
proof (induction xs rule: induct_list012)
  case 1
  then show ?case by simp
next
  case (2 x)
  then show ?case by (simp add: splitOn_no_sep)
next
  case (3 x y ys)
  have "splitOn d (x @ d # join [d] (y # ys)) = splitOn d x @ splitOn d (join [d] (y # ys))"
    by (rule splitOn_append_sep)
  with 3 show ?case by (simp add: splitOn_no_sep)
qed

section \<open>Lemmas on path normalisation\<close>

lemma segments_append_sep:
  "segments (xs @ CHR ''/'' # ys) = segments xs @ segments ys"
  by (simp add: segments_def splitOn_append_sep)

lemma segments_dots_ups: "segments (''..'' @ ups n) = replicate (Suc n) ''..''"
proof (induction n)
  case 0
  then show ?case by (simp add: ups_def segments_def)
next
  case (Suc n)
  have "''..'' @ ups (Suc n) = ''..'' @ CHR ''/'' # (''..'' @ ups n)"
    by (simp add: ups_def)
  then have "segments (''..'' @ ups (Suc n)) = segments ''..'' @ segments (''..'' @ ups n)"
    by (simp only: segments_append_sep)
  with Suc show ?case by (simp add: segments_def)
qed

lemma segments_ups: "segments (ups n) = replicate n ''..''"
proof (cases n)
  case 0
  then show ?thesis by (simp add: ups_def segments_def)
next
  case (Suc m)
  have "ups (Suc m) = [] @ CHR ''/'' # (''..'' @ ups m)" by (simp add: ups_def)
  then have "segments (ups (Suc m)) = segments [] @ segments (''..'' @ ups m)"
    by (simp only: segments_append_sep)
  with Suc show ?thesis using segments_dots_ups [of m] by (simp add: segments_def)
qed

lemma segments_append_ups: "segments (p @ ups n) = segments p @ replicate n ''..''"
proof (cases n)
  case 0
  then show ?thesis by (simp add: ups_def)
next
  case (Suc m)
  have "p @ ups (Suc m) = p @ CHR ''/'' # (''..'' @ ups m)" by (simp add: ups_def)
  then have "segments (p @ ups (Suc m)) = segments p @ segments (''..'' @ ups m)"
    by (simp only: segments_append_sep)
  with Suc show ?thesis using segments_dots_ups [of m] by simp
qed

lemma foldl_pops: "foldl resolveStep stack (replicate n ''..'') = take (length stack - n) stack"
proof (induction n arbitrary: stack)
  case 0
  then show ?case by simp
next
  case (Suc n)
  then show ?case by (simp add: resolveStep_def butlast_conv_take take_butlast)
qed

lemma resolve_append_ups:
  "resolve (xs @ replicate n ''..'') = take (length (resolve xs) - n) (resolve xs)"
  by (simp add: resolve_def foldl_pops)

lemma absolute_append_ups:
  "p \<noteq> [] \<Longrightarrow> absolute st (p @ ups n) = absolute st p @ ups n"
  by (cases p) (auto simp: absolute_def startsWith_def)

lemma dotdots_ups: "dotdots (Suc n) = ''..'' @ ups n"
  by (induction n) (auto simp: dotdots_def ups_def)

lemma depth_empty: "depth st [] = length (resolve (segments (cwd st)))"
  using segments_append_sep [of "cwd st" "[]"]
  by (simp add: depth_def absolute_def startsWith_def segments_def)

lemma normalizePath_empty_stack:
  "resolve (segments (absolute st p)) = [] \<Longrightarrow> normalizePath st p = ''/''"
  by (simp add: normalizePath_def)

lemma foldl_resolveStep_set:
  "set (foldl resolveStep stack parts) \<subseteq> set stack \<union> (set parts - {''..''})"
proof (induction parts arbitrary: stack)
  case Nil
  then show ?case by simp
next
  case (Cons p ps)
  have "set (resolveStep stack p) \<subseteq> set stack \<union> ({p} - {''..''})"
    using in_set_butlastD [of _ stack] by (auto simp: resolveStep_def)
  with Cons [of "resolveStep stack p"] show ?case by auto
qed

lemma resolve_set: "set (resolve parts) \<subseteq> set parts - {''..''}"
  using foldl_resolveStep_set [of "[]" parts] by (simp add: resolve_def)

lemma foldl_resolveStep_plain:
  "''..'' \<notin> set xs \<Longrightarrow> foldl resolveStep stack xs = stack @ xs"
  by (induction xs arbitrary: stack) (auto simp: resolveStep_def)

lemma resolve_plain: "''..'' \<notin> set xs \<Longrightarrow> resolve xs = xs"
  by (simp add: resolve_def foldl_resolveStep_plain)

lemma segments_set:
  "p \<in> set (segments s) \<Longrightarrow> p \<noteq> [] \<and> p \<noteq> ''.'' \<and> CHR ''/'' \<notin> set p"
  using splitOn_parts_no_sep [of p "CHR ''/''" s] by (auto simp: segments_def)

lemma segments_join:
  assumes "\<forall>p \<in> set xs. p \<noteq> [] \<and> p \<noteq> ''.'' \<and> CHR ''/'' \<notin> set p"
  shows "segments (CHR ''/'' # join ''/'' xs) = xs"
proof (cases "xs = []")
  case True
  then show ?thesis by (simp add: segments_def)
next
  case False
  have "segments ([] @ CHR ''/'' # join ''/'' xs) = segments [] @ segments (join ''/'' xs)"
    by (rule segments_append_sep)
  moreover have "splitOn CHR ''/'' (join [CHR ''/''] xs) = xs"
    using False assms by (intro splitOn_join) auto
  moreover have "filter (\<lambda>p. p \<noteq> [] \<and> p \<noteq> ''.'') xs = xs"
    using assms by (intro filter_True) auto
  ultimately show ?thesis by (simp add: segments_def)
qed

lemma normalizePath_stack:
  "resolve (segments (absolute st (normalizePath st p))) = resolve (segments (absolute st p))"
proof -
  let ?stack = "resolve (segments (absolute st p))"
  have good: "\<forall>q \<in> set ?stack. q \<noteq> [] \<and> q \<noteq> ''.'' \<and> CHR ''/'' \<notin> set q"
    using resolve_set [of "segments (absolute st p)"] segments_set by blast
  have nodots: "''..'' \<notin> set ?stack"
    using resolve_set [of "segments (absolute st p)"] by blast
  have "absolute st (normalizePath st p) = normalizePath st p"
    by (simp add: absolute_def startsWith_def normalizePath_def)
  moreover have "segments (normalizePath st p) = ?stack"
    using segments_join [OF good] by (simp add: normalizePath_def)
  ultimately show ?thesis
    using resolve_plain [OF nodots] by simp
qed

section \<open>Path normalisation: root clamp and idempotence\<close>

text \<open>
  Claim C2. \<open>normalizePath\<close> is a total function with no error branch, and parent
  segments beyond the depth clamp at the root: when a path is followed by at least as
  many \<open>..\<close> segments as its depth from the root, the result is exactly \<open>/\<close>; and a
  path made of \<open>..\<close> segments only, at least as many as the depth of the working
  directory, normalises to \<open>/\<close>. This holds for every path and every working directory.
\<close>

theorem normalizePath_root_clamp:
  "(depth st p \<le> n \<longrightarrow> normalizePath st (p @ ups n) = ''/'') \<and>
   (depth st [] \<le> n \<longrightarrow> normalizePath st (dotdots n) = ''/'')"
proof (intro conjI impI)
  assume d: "depth st p \<le> n"
  show "normalizePath st (p @ ups n) = ''/''"
  proof (cases "p = []")
    case False
    then have "segments (absolute st (p @ ups n)) = segments (absolute st p) @ replicate n ''..''"
      by (simp add: absolute_append_ups segments_append_ups)
    then have "resolve (segments (absolute st (p @ ups n))) = []"
      using d by (simp add: resolve_append_ups depth_def)
    then show ?thesis by (rule normalizePath_empty_stack)
  next
    case True
    show ?thesis
    proof (cases n)
      case 0
      with d True show ?thesis by (simp add: ups_def depth_def normalizePath_def)
    next
      case (Suc m)
      then have "absolute st (ups n) = ups n"
        by (simp add: absolute_def startsWith_def ups_def)
      then have "resolve (segments (absolute st (ups n))) = []"
        using resolve_append_ups [of "[]" n] by (simp add: segments_ups resolve_def)
      then show ?thesis using True normalizePath_empty_stack by simp
    qed
  qed
next
  assume d: "depth st [] \<le> n"
  show "normalizePath st (dotdots n) = ''/''"
  proof (cases n)
    case 0
    with d show ?thesis by (simp add: dotdots_def depth_def normalizePath_def)
  next
    case (Suc m)
    have "absolute st (dotdots n) = cwd st @ CHR ''/'' # (''..'' @ ups m)"
      using Suc by (simp add: dotdots_ups absolute_def startsWith_def)
    then have "segments (absolute st (dotdots n)) = segments (cwd st) @ segments (''..'' @ ups m)"
      by (simp add: segments_append_sep)
    moreover have "segments (''..'' @ ups m) = replicate n ''..''"
      using segments_append_ups [of "''..''" m] Suc by (simp add: segments_def)
    ultimately have "resolve (segments (absolute st (dotdots n))) = []"
      using d by (simp add: resolve_append_ups depth_empty)
    then show ?thesis by (rule normalizePath_empty_stack)
  qed
qed

theorem normalizePath_root_clamp_witness:
  "depth (emptyVfs\<lparr>cwd := ''/x/y''\<rparr>) ''a/b'' \<le> 5 \<and>
   normalizePath (emptyVfs\<lparr>cwd := ''/x/y''\<rparr>) (''a/b'' @ ups 5) = ''/'' \<and>
   depth (emptyVfs\<lparr>cwd := ''/x/y''\<rparr>) [] \<le> 3 \<and>
   normalizePath (emptyVfs\<lparr>cwd := ''/x/y''\<rparr>) (dotdots 3) = ''/''"
proof -
  have h1: "depth (emptyVfs\<lparr>cwd := ''/x/y''\<rparr>) ''a/b'' \<le> 5" by code_simp
  have h2: "depth (emptyVfs\<lparr>cwd := ''/x/y''\<rparr>) [] \<le> 3" by code_simp
  show ?thesis
    using h1 h2 normalizePath_root_clamp [of "emptyVfs\<lparr>cwd := ''/x/y''\<rparr>" "''a/b''" 5]
      normalizePath_root_clamp [of "emptyVfs\<lparr>cwd := ''/x/y''\<rparr>" "[]" 3]
    by blast
qed

text \<open>
  Claim C6. \<open>normalizePath\<close> is idempotent: normalising a normalised path, against
  the same working directory, gives the same path.
\<close>

theorem normalizePath_idempotent:
  "normalizePath st (normalizePath st p) = normalizePath st p"
  using normalizePath_stack [of st p] by (simp add: normalizePath_def)

section \<open>Write, then read\<close>

lemma normalizePath_files_update [simp]:
  "normalizePath (st\<lparr>files := fs\<rparr>) path = normalizePath st path"
  by (simp add: normalizePath_def absolute_def)

text \<open>
  Claim C3. After \<open>write(path, content)\<close>, \<open>read(path)\<close> on the same filesystem returns
  exactly \<open>content\<close>, for every path and every content, the empty string included
  (whatever the store answers to the persisting call: the in-memory state is updated
  first).
\<close>

theorem write_then_read:
  "vfs_read (snd (vfs_write e path c st)) path = Inr c \<and>
   vfs_read (snd (vfs_write e path [] st)) path = Inr []"
  by (simp add: vfs_read_def vfs_write_def Let_def update_conv')

section \<open>The store swallows a failed deserialisation\<close>

text \<open>
  Claim C5. When the value stored under a key does not deserialise (\<open>JSON.parse\<close>
  throws), \<open>get\<close> returns \<open>null\<close>, and the console log after the call is the log before
  it: the failure is not logged, and the answer is the one given for an absent key.
\<close>

theorem get_swallows_parse_failure:
  assumes "map_of (items s) (storePrefix s @ key) = Some val" and "val \<noteq> []" and "parse val = None"
  shows "get parse s key log = (JNull, log)"
  using assms by (simp add: get_def)

theorem get_swallows_parse_failure_witness:
  "map_of (items \<lparr>storePrefix = ''swat:'', items = [(''swat:form_data'', ''{oops'')]\<rparr>)
      (storePrefix \<lparr>storePrefix = ''swat:'', items = [(''swat:form_data'', ''{oops'')]\<rparr> @ ''form_data'') = Some ''{oops''
   \<and> get (\<lambda>v. None) \<lparr>storePrefix = ''swat:'', items = [(''swat:form_data'', ''{oops'')]\<rparr> ''form_data'' [] = (JNull, [])"
  using get_swallows_parse_failure [of "\<lparr>storePrefix = ''swat:'', items = [(''swat:form_data'', ''{oops'')]\<rparr>"
     "''form_data''" "''{oops''" "\<lambda>v. None" "[]"]
  by simp

section \<open>grep\<close>

lemma startsWith_prefix: "startsWith s p \<longleftrightarrow> prefix p s"
  by (metis startsWith_def prefix_def append_eq_conv_conj take_is_prefix)

lemma includesStr_sublist: "includesStr s pat \<longleftrightarrow> sublist pat s"
  by (induction s) (auto simp: sublist_Cons_right startsWith_prefix)

lemma trim_empty_iff: "trim l = [] \<longleftrightarrow> blank l"
proof
  assume "trim l = []"
  then have all: "\<forall>c \<in> set (dropWhile isSpace l). isSpace c"
    by (simp add: trim_def)
  show "blank l"
  proof (cases "dropWhile isSpace l = []")
    case True
    then show ?thesis by (simp add: blank_def)
  next
    case False
    then have "\<not> isSpace (hd (dropWhile isSpace l))" by (rule hd_dropWhile)
    moreover have "hd (dropWhile isSpace l) \<in> set (dropWhile isSpace l)"
      using False by simp
    ultimately show ?thesis using all by blast
  qed
next
  assume "blank l"
  then show "trim l = []"
    using set_dropWhileD [of _ isSpace l] by (auto simp: trim_def blank_def)
qed

text \<open>
  Claim C8, amended. For every stdin and every non-empty pattern, when neither
  \<open>--help\<close> nor \<open>-h\<close> occurs among the arguments, \<open>grep\<close> splits the stdin into lines,
  drops the blank lines (those of whitespace only) and keeps exactly the lines that
  contain the pattern as a substring, in their order; its stdout is these lines joined
  by newlines, with a final newline when there is at least one.
\<close>

theorem grep_keeps_matching_lines:
  assumes "pat \<noteq> []" and "\<not> helpFlag (pat # rest)"
  shows "grep_cmd e names (pat # rest) sin st =
     (Inr \<lparr>r_stdout = Some (join ''\<newline>'' (grepSpec pat sin) @
                               (if grepSpec pat sin = [] then [] else ''\<newline>'')),
           r_stderr = None, r_exitCode = None\<rparr>, st)"
proof -
  have "filter (\<lambda>line. includesStr line pat) (filter (\<lambda>l. trim l \<noteq> []) (splitOn CHR 0x0A sin))
        = grepSpec pat sin"
    by (simp add: grepSpec_def includesStr_sublist trim_empty_iff)
  then show ?thesis
    using assms by (simp add: grep_cmd_def onlyStdout_def Let_def)
qed

theorem grep_keeps_matching_lines_witness:
  "''two'' \<noteq> [] \<and> \<not> helpFlag [''two''] \<and>
   grepSpec ''two'' ''one two\<newline>   \<newline>three\<newline>two four\<newline>'' = [''one two'', ''two four''] \<and>
   grep_cmd offline [] [''two''] ''one two\<newline>   \<newline>three\<newline>two four\<newline>'' emptyVfs =
     (Inr \<lparr>r_stdout = Some ''one two\<newline>two four\<newline>'', r_stderr = None, r_exitCode = None\<rparr>, emptyVfs)"
proof -
  have h1: "''two'' \<noteq> []" by simp
  have h2: "\<not> helpFlag [''two'']" by (simp add: helpFlag_def)
  have g: "grepSpec ''two'' ''one two\<newline>   \<newline>three\<newline>two four\<newline>'' = [''one two'', ''two four'']"
    by code_simp
  show ?thesis
    using grep_keeps_matching_lines [OF h1 h2, of offline "[]" "''one two\<newline>   \<newline>three\<newline>two four\<newline>''" emptyVfs] g h2
    by simp
qed

text \<open>
  The claim as stated, for every non-empty pattern, fails at the pattern \<open>-h\<close>: the
  line \<open>ls -h\<close> contains it, and \<open>grep\<close> prints its usage instead of the line.
\<close>

theorem grep_help_pattern_counterexample:
  "''-h'' \<noteq> [] \<and> grepSpec ''-h'' ''ls -h\<newline>'' = [''ls -h''] \<and>
   grep_cmd offline [] [''-h''] ''ls -h\<newline>'' emptyVfs =
     (Inr \<lparr>r_stdout = Some ''grep: search for pattern in input\<newline>Usage: grep [options] <pattern>\<newline>Options:\<newline>  --help, -h  Show this help\<newline>'',
           r_stderr = None, r_exitCode = None\<rparr>, emptyVfs)"
proof -
  have "grepSpec ''-h'' ''ls -h\<newline>'' = [''ls -h'']" by code_simp
  then show ?thesis by (simp add: grep_cmd_def helpFlag_def onlyStdout_def)
qed

section \<open>Missing operands of grep and curl\<close>

text \<open>
  Claim C9. Invoked with no argument, \<open>grep\<close> returns an object with a non-empty
  stderr message and neither stdout nor exit code, and so does \<open>curl\<close>; the default
  makes the exit code of both results 0. The same holds when the first argument is the
  empty string and no help flag follows.
\<close>

theorem missing_operand_exit_zero:
  "grep_cmd e names [] sin st =
     (Inr \<lparr>r_stdout = None, r_stderr = Some ''grep: missing pattern\<newline>'', r_exitCode = None\<rparr>, st)
   \<and> curl_cmd e names [] sin st =
     (Inr \<lparr>r_stdout = None, r_stderr = Some ''curl: missing url\<newline>'', r_exitCode = None\<rparr>, st)
   \<and> exitCode (withDefaults \<lparr>r_stdout = None, r_stderr = Some ''grep: missing pattern\<newline>'', r_exitCode = None\<rparr>) = 0
   \<and> exitCode (withDefaults \<lparr>r_stdout = None, r_stderr = Some ''curl: missing url\<newline>'', r_exitCode = None\<rparr>) = 0
   \<and> (\<not> helpFlag rest \<longrightarrow>
        grep_cmd e names ([] # rest) sin st =
          (Inr \<lparr>r_stdout = None, r_stderr = Some ''grep: missing pattern\<newline>'', r_exitCode = None\<rparr>, st)
        \<and> curl_cmd e names ([] # rest) sin st =
          (Inr \<lparr>r_stdout = None, r_stderr = Some ''curl: missing url\<newline>'', r_exitCode = None\<rparr>, st))"
  by (simp add: grep_cmd_def curl_cmd_def onlyStderr_def withDefaults_def helpFlag_def)

theorem missing_operand_exit_zero_witness:
  "\<not> helpFlag [''x''] \<and>
   grep_cmd offline [] [[], ''x''] ''some input'' emptyVfs =
     (Inr \<lparr>r_stdout = None, r_stderr = Some ''grep: missing pattern\<newline>'', r_exitCode = None\<rparr>, emptyVfs)
   \<and> curl_cmd offline [] [[], ''x''] [] emptyVfs =
     (Inr \<lparr>r_stdout = None, r_stderr = Some ''curl: missing url\<newline>'', r_exitCode = None\<rparr>, emptyVfs)"
proof -
  have h: "\<not> helpFlag [''x'']" by (simp add: helpFlag_def)
  show ?thesis
    using h missing_operand_exit_zero [of offline "[]" "''some input''" emptyVfs "[''x'']"]
      missing_operand_exit_zero [of offline "[]" "[]" emptyVfs "[''x'']"]
    by blast
qed

section \<open>The output of ls\<close>

lemma vfs_list_normalizePath: "vfs_list st (normalizePath st dir) = vfs_list st dir"
  by (simp add: vfs_list_def normalizePath_stack)

lemma normalizePath_no_flag: "\<not> helpFlag [normalizePath st dir]"
  by (simp add: helpFlag_def normalizePath_def)

lemma lsDir_normalizePath: "lsDir [normalizePath st dir] = normalizePath st dir"
  by (simp add: lsDir_def normalizePath_def)

text \<open>
  Claim C10. Whenever \<open>ls\<close> lists a directory (no help flag among its arguments; the
  directory is its first argument, \<open>/\<close> by default), its stdout is the empty string
  when the directory has no children, and the children joined by newlines followed by
  one more newline when it has at least one. Every directory is listed so when it is
  named by its normalised path.
\<close>

theorem ls_stdout_format:
  "(\<not> helpFlag as \<longrightarrow>
      ls_cmd e names as sin st =
        (Inr \<lparr>r_stdout = Some (if vfs_list st (lsDir as) = [] then []
                                 else join ''\<newline>'' (vfs_list st (lsDir as)) @ ''\<newline>''),
              r_stderr = None, r_exitCode = None\<rparr>, st))
   \<and> ls_cmd e names [normalizePath st dir] sin st =
        (Inr \<lparr>r_stdout = Some (if vfs_list st dir = [] then []
                                 else join ''\<newline>'' (vfs_list st dir) @ ''\<newline>''),
              r_stderr = None, r_exitCode = None\<rparr>, st)"
proof -
  have "ls_cmd e names [normalizePath st dir] sin st =
        (Inr \<lparr>r_stdout = Some (if vfs_list st dir = [] then []
                                 else join ''\<newline>'' (vfs_list st dir) @ ''\<newline>''),
              r_stderr = None, r_exitCode = None\<rparr>, st)"
    using normalizePath_no_flag [of st dir]
    by (simp add: ls_cmd_def onlyStdout_def Let_def lsDir_normalizePath vfs_list_normalizePath)
  then show ?thesis
    by (simp add: ls_cmd_def onlyStdout_def Let_def)
qed

theorem ls_stdout_format_witness:
  "\<not> helpFlag [] \<and>
   vfs_list (snd (vfs_write offline ''/notes/todo.txt'' ''buy milk'' emptyVfs)) (lsDir []) = [''/notes'']
   \<and> ls_cmd offline [] [] [] (snd (vfs_write offline ''/notes/todo.txt'' ''buy milk'' emptyVfs)) =
     (Inr \<lparr>r_stdout = Some ''/notes\<newline>'', r_stderr = None, r_exitCode = None\<rparr>,
      snd (vfs_write offline ''/notes/todo.txt'' ''buy milk'' emptyVfs))
   \<and> \<not> helpFlag [''/notes'']
   \<and> vfs_list emptyVfs (lsDir [''/notes'']) = []
   \<and> ls_cmd offline [] [''/notes''] [] emptyVfs =
     (Inr \<lparr>r_stdout = Some [], r_stderr = None, r_exitCode = None\<rparr>, emptyVfs)"
proof -
  let ?st = "snd (vfs_write offline ''/notes/todo.txt'' ''buy milk'' emptyVfs)"
  have h1: "\<not> helpFlag []" by (simp add: helpFlag_def)
  have h2: "\<not> helpFlag [''/notes'']" by (simp add: helpFlag_def)
  have l1: "vfs_list ?st (lsDir []) = [''/notes'']"
    by code_simp
  have l2: "vfs_list emptyVfs (lsDir [''/notes'']) = []"
    by code_simp
  have "ls_cmd offline [] [] [] ?st =
     (Inr \<lparr>r_stdout = Some ''/notes\<newline>'', r_stderr = None, r_exitCode = None\<rparr>, ?st)"
    using h1 l1 ls_stdout_format [of "[]" offline "[]" "[]" ?st] by simp
  moreover have "ls_cmd offline [] [''/notes''] [] emptyVfs =
     (Inr \<lparr>r_stdout = Some [], r_stderr = None, r_exitCode = None\<rparr>, emptyVfs)"
    using h2 l2 ls_stdout_format [of "[''/notes'']" offline "[]" "[]" emptyVfs] by simp
  ultimately show ?thesis using h1 h2 l1 l2 by blast
qed

section \<open>The help flag of the built-in commands\<close>

lemma builtins_cases:
  assumes "map_of builtins name = Some h"
  shows "name = ''echo'' \<and> h = echo_cmd \<or> name = ''pwd'' \<and> h = pwd_cmd \<or>
         name = ''write'' \<and> h = write_cmd \<or> name = ''cat'' \<and> h = cat_cmd \<or>
         name = ''ls'' \<and> h = ls_cmd \<or> name = ''history'' \<and> h = history_cmd \<or>
         name = ''curl'' \<and> h = curl_cmd \<or> name = ''grep'' \<and> h = grep_cmd \<or>
         name = ''help'' \<and> h = help_cmd"
  using assms by (simp add: builtins_def split: if_splits)

lemma vfs_list_emptyVfs: "vfs_list emptyVfs dir = []"
  by (simp add: vfs_list_def emptyVfs_def)

text \<open>
  Claim C7. For every built-in command and every argument list in which \<open>--help\<close>
  or \<open>-h\<close> occurs anywhere, the command returns its usage string as stdout and
  nothing else, and leaves the filesystem as it was, whatever the other arguments, the
  stdin and the world are. The usage string is the fixed, non-empty text of that
  command. It stands in for the normal behaviour: it is not what the command returns
  when it is invoked with no argument and no input on the empty filesystem.
\<close>

theorem builtin_help_short_circuit:
  assumes "map_of builtins name = Some h"
  shows "(''--help'' \<in> set as \<or> ''-h'' \<in> set as \<longrightarrow>
            h e names as sin st =
              (Inr \<lparr>r_stdout = Some (usage name), r_stderr = None, r_exitCode = None\<rparr>, st))
       \<and> usage name \<noteq> []
       \<and> h offline [] [] [] emptyVfs \<noteq>
            (Inr \<lparr>r_stdout = Some (usage name), r_stderr = None, r_exitCode = None\<rparr>, emptyVfs)"
  using builtins_cases [OF assms]
proof (elim disjE)
  assume "name = ''echo'' \<and> h = echo_cmd"
  then show ?thesis
    by (simp add: usage_def echo_cmd_def helpFlag_def onlyStdout_def)
next
  assume "name = ''pwd'' \<and> h = pwd_cmd"
  then show ?thesis
    by (simp add: usage_def pwd_cmd_def helpFlag_def onlyStdout_def emptyVfs_def)
next
  assume "name = ''write'' \<and> h = write_cmd"
  then show ?thesis
    by (simp add: usage_def write_cmd_def helpFlag_def onlyStdout_def)
next
  assume "name = ''cat'' \<and> h = cat_cmd"
  then show ?thesis
    by (simp add: usage_def cat_cmd_def helpFlag_def onlyStdout_def)
next
  assume "name = ''ls'' \<and> h = ls_cmd"
  then show ?thesis
    by (simp add: usage_def ls_cmd_def helpFlag_def onlyStdout_def vfs_list_emptyVfs)
next
  assume "name = ''history'' \<and> h = history_cmd"
  then show ?thesis
    by (simp add: usage_def history_cmd_def helpFlag_def onlyStdout_def emptyVfs_def)
next
  assume "name = ''curl'' \<and> h = curl_cmd"
  then show ?thesis
    by (simp add: usage_def curl_cmd_def helpFlag_def onlyStdout_def onlyStderr_def)
next
  assume "name = ''grep'' \<and> h = grep_cmd"
  then show ?thesis
    by (simp add: usage_def grep_cmd_def helpFlag_def onlyStdout_def onlyStderr_def)
next
  assume "name = ''help'' \<and> h = help_cmd"
  then show ?thesis
    by (simp add: usage_def help_cmd_def helpFlag_def onlyStdout_def)
qed

theorem builtin_help_short_circuit_witness:
  "map_of builtins ''write'' = Some write_cmd
   \<and> write_cmd offline [] [''/notes.txt'', ''milk'', ''--help''] ''in'' emptyVfs =
       (Inr \<lparr>r_stdout = Some ''write: write content to file\<newline>Usage: write [options] <path> <content>\<newline>Options:\<newline>  --help, -h  Show this help\<newline>'',
             r_stderr = None, r_exitCode = None\<rparr>, emptyVfs)
   \<and> map_of builtins ''echo'' = Some echo_cmd
   \<and> echo_cmd offline [] [''-h''] [] (emptyVfs\<lparr>cwd := ''/x''\<rparr>) =
       (Inr \<lparr>r_stdout = Some ''echo: print arguments to stdout\<newline>Usage: echo [options] [args...]\<newline>Options:\<newline>  --help, -h  Show this help\<newline>'',
             r_stderr = None, r_exitCode = None\<rparr>, emptyVfs\<lparr>cwd := ''/x''\<rparr>)
   \<and> echo_cmd offline [] [] [] emptyVfs \<noteq>
       (Inr \<lparr>r_stdout = Some ''echo: print arguments to stdout\<newline>Usage: echo [options] [args...]\<newline>Options:\<newline>  --help, -h  Show this help\<newline>'',
             r_stderr = None, r_exitCode = None\<rparr>, emptyVfs)"
proof -
  have mw: "map_of builtins ''write'' = Some write_cmd" by (simp add: builtins_def)
  have me: "map_of builtins ''echo'' = Some echo_cmd" by (simp add: builtins_def)
  have uw: "usage ''write'' = ''write: write content to file\<newline>Usage: write [options] <path> <content>\<newline>Options:\<newline>  --help, -h  Show this help\<newline>''"
    by (simp add: usage_def)
  have ue: "usage ''echo'' = ''echo: print arguments to stdout\<newline>Usage: echo [options] [args...]\<newline>Options:\<newline>  --help, -h  Show this help\<newline>''"
    by (simp add: usage_def)
  have "write_cmd offline [] [''/notes.txt'', ''milk'', ''--help''] ''in'' emptyVfs =
       (Inr \<lparr>r_stdout = Some (usage ''write''), r_stderr = None, r_exitCode = None\<rparr>, emptyVfs)"
    using builtin_help_short_circuit [OF mw, of "[''/notes.txt'', ''milk'', ''--help'']" offline "[]" "''in''" emptyVfs]
    by simp
  moreover have "echo_cmd offline [] [''-h''] [] (emptyVfs\<lparr>cwd := ''/x''\<rparr>) =
       (Inr \<lparr>r_stdout = Some (usage ''echo''), r_stderr = None, r_exitCode = None\<rparr>, emptyVfs\<lparr>cwd := ''/x''\<rparr>)"
    using builtin_help_short_circuit [OF me, of "[''-h'']" offline "[]" "[]" "emptyVfs\<lparr>cwd := ''/x''\<rparr>"]
    by simp
  moreover have "echo_cmd offline [] [] [] emptyVfs \<noteq>
       (Inr \<lparr>r_stdout = Some (usage ''echo''), r_stderr = None, r_exitCode = None\<rparr>, emptyVfs)"
    using builtin_help_short_circuit [OF me, of "[]" offline "[]" "[]" emptyVfs] by simp
  ultimately show ?thesis using mw me uw ue by simp
qed

section \<open>An unterminated quote\<close>

text \<open>
  The lexer of the executor and \<open>shellSplit\<close>, the lexer of the terminal application,
  read a line the same way: when the former accepts a line, its tokens have the texts
  that \<open>shellSplit\<close> returns.
\<close>

lemma tokenText_classify: "tokenText (classify l w) = w"
  by (simp add: classify_def)

lemma xlexRun_simulates:
  "map tokenText (toks (xlexRun s)) = out (lexRun s) \<and> word (xlexRun s) = cur (lexRun s)
   \<and> quote (xlexRun s) = qi (lexRun s) \<and> escaped (xlexRun s) = esc (lexRun s)"
proof (induction s rule: rev_induct)
  case Nil
  then show ?case by (simp add: xlexRun_def lexRun_def)
next
  case (snoc c s)
  have "xlexRun (s @ [c]) = xlexStep (xlexRun s) c" by (simp add: xlexRun_def)
  moreover have "lexRun (s @ [c]) = lexStep (lexRun s) c" by (simp add: lexRun_def)
  ultimately show ?case
    using snoc
    by (auto simp: xlexStep_def lexStep_def flush_def tokenText_classify split: option.splits)
qed

lemma lexLine_shellSplit: "lexLine s = Inr ts \<Longrightarrow> map tokenText ts = shellSplit s"
  using xlexRun_simulates [of s]
  by (auto simp: lexLine_def shellSplit_def Let_def flush_def
      tokenText_classify split: if_splits)







section \<open>The order of name resolution\<close>

text \<open>
  When the first stage of a line is the unresolved one, both orders of resolution end
  the line in the same way. When an earlier stage fails, they differ: resolving up
  front reports the unresolved name, resolving when the stage is reached reports the
  failure of the earlier stage.
\<close>

lemma exitCode_notFound [simp]: "exitCode (notFound name) = 127"
  by (simp add: notFound_def)

lemma runStages_step:
  assumes "map_of reg (commandName p) = Some h"
    and "h e (sort (map fst reg)) (args p) (stdout prev) st = (Inr raw, st')"
    and "exitCode (withDefaults raw) = 0"
    and "ss \<noteq> []"
  shows "runStages e reg st prev (p # ss) =
     (let rest = runStages e reg st' (withDefaults raw) ss
      in rest\<lparr>executed := commandName p # executed rest\<rparr>)"
  using assms by (simp add: Let_def)

lemma runStages_single:
  assumes "map_of reg (commandName p) = Some h"
    and "h e (sort (map fst reg)) (args p) (stdout prev) st = (Inr raw, st')"
    and "exitCode (withDefaults raw) = 0"
    and "redirect p = None"
  shows "runStages e reg st prev [p] =
     \<lparr>outcome = withDefaults raw, final = st', executed = [commandName p]\<rparr>"
  using assms by (simp add: Let_def)

lemma runStages_append:
  assumes "\<forall>s \<in> set pre. redirect s = None"
    and "exitCode (outcome (runStages e reg st prev pre)) = 0"
  shows "runStages e reg st prev (pre @ rest) =
     (let r = runStages e reg st prev pre;
          r2 = runStages e reg (final r) (outcome r) rest
      in r2\<lparr>executed := executed r @ executed r2\<rparr>)"
  using assms
proof (induction pre arbitrary: st prev)
  case Nil
  then show ?case by simp
next
  case (Cons p ps)
  obtain h where h: "map_of reg (commandName p) = Some h"
    using Cons.prems(2) by (cases "map_of reg (commandName p)") auto
  obtain res st' where run: "h e (sort (map fst reg)) (args p) (stdout prev) st = (res, st')"
    by (cases "h e (sort (map fst reg)) (args p) (stdout prev) st") auto
  obtain raw where raw: "res = Inr raw"
    using Cons.prems(2) h run by (cases res) auto
  have ok: "exitCode (withDefaults raw) = 0"
    using Cons.prems(2) h run raw by (auto simp: Let_def split: if_splits)
  have nored: "redirect p = None" using Cons.prems(1) by simp
  show ?case
  proof (cases "ps = []")
    case True
    show ?thesis
    proof (cases "rest = []")
      case True
      with \<open>ps = []\<close> show ?thesis
        using runStages_single [OF h run [unfolded raw] ok nored] by (simp del: runStages.simps(2))
    next
      case False
      with \<open>ps = []\<close> show ?thesis
        using runStages_single [OF h run [unfolded raw] ok nored]
          runStages_step [OF h run [unfolded raw] ok False]
        by (simp add: Let_def del: runStages.simps(2))
    qed
  next
    case False
    have sub: "exitCode (outcome (runStages e reg st' (withDefaults raw) ps)) = 0"
      using Cons.prems(2) h run raw ok False by (auto simp: Let_def)
    have "runStages e reg st' (withDefaults raw) (ps @ rest) =
      (let r = runStages e reg st' (withDefaults raw) ps;
           r2 = runStages e reg (final r) (outcome r) rest
       in r2\<lparr>executed := executed r @ executed r2\<rparr>)"
      using Cons.IH [OF _ sub] Cons.prems(1) by simp
    moreover have "ps @ rest \<noteq> []" using False by simp
    ultimately show ?thesis
      using runStages_step [OF h run [unfolded raw] ok False]
        runStages_step [OF h run [unfolded raw] ok \<open>ps @ rest \<noteq> []\<close>]
      by (simp add: Let_def del: runStages.simps(2))
  qed
qed

lemma runStages_executed:
  assumes "exitCode (outcome (runStages e reg st prev pre)) = 0" and "exitCode prev = 0"
  shows "executed (runStages e reg st prev pre) = map commandName pre"
  using assms
proof (induction pre arbitrary: st prev)
  case Nil
  then show ?case by simp
next
  case (Cons p ps)
  then show ?case
    by (auto simp: Let_def split: option.splits sum.splits if_splits prod.splits)
qed

lemma plainStage_redirect: "plainStage ts = Inr s \<Longrightarrow> redirect s = None"
  by (auto simp: plainStage_def split: option.splits list.splits)

lemma mkStages_redirect:
  "mkStages tss = Inr stages \<Longrightarrow> \<forall>s \<in> set (butlast stages). redirect s = None"
proof (induction tss arbitrary: stages rule: mkStages.induct)
  case 1
  then show ?case by simp
next
  case (2 ts)
  then obtain s where "stages = [s]" by (auto split: sum.splits)
  then show ?case by simp
next
  case (3 ts v va)
  from "3.prems" obtain s ss where s: "plainStage ts = Inr s"
    and ss: "mkStages (v # va) = Inr ss" and st: "stages = s # ss"
    by (auto split: sum.splits)
  have "\<forall>s \<in> set (butlast ss). redirect s = None"
    using "3.IH" [OF s ss] .
  moreover have "redirect s = None" using s by (rule plainStage_redirect)
  ultimately show ?case using st by (auto split: if_splits)
qed

lemma parseLine_redirect:
  "parseLine line = Inr stages \<Longrightarrow> \<forall>s \<in> set (butlast stages). redirect s = None"
  by (auto simp: parseLine_def split: sum.splits dest: mkStages_redirect)

lemma runLine_when_reached:
  assumes "parseLine line = Inr (pre @ bad # rest)"
    and "map_of reg (commandName bad) = None"
    and "exitCode (outcome (runStages e reg st start pre)) = 0"
  shows "result (runLine WhenReached e reg st line) = Inr (notFound (commandName bad))
       \<and> trace (runLine WhenReached e reg st line) = map commandName pre
       \<and> state (runLine WhenReached e reg st line) = final (runStages e reg st start pre)"
proof -
  have "\<forall>s \<in> set (butlast (pre @ bad # rest)). redirect s = None"
    using parseLine_redirect [OF assms(1)] .
  then have nored: "\<forall>s \<in> set pre. redirect s = None"
    by (simp add: butlast_append)
  let ?r = "runStages e reg st start pre"
  have unresolved: "runStages e reg (final ?r) (outcome ?r) (bad # rest) =
      \<lparr>outcome = notFound (commandName bad), final = final ?r, executed = []\<rparr>"
    using assms(2) by simp
  have "runStages e reg st start (pre @ bad # rest) =
      \<lparr>outcome = notFound (commandName bad), final = final ?r, executed = executed ?r\<rparr>"
    using runStages_append [OF nored assms(3), of "bad # rest"] unresolved
    by (simp add: Let_def del: runStages.simps(2))
  moreover have "executed ?r = map commandName pre"
    using runStages_executed [OF assms(3)] by (simp add: start_def)
  ultimately show ?thesis
    using assms(1) by (simp add: runLine_def Let_def del: runStages.simps(2))
qed

lemma runLine_up_front:
  assumes "parseLine line = Inr stages"
    and "firstUnresolved reg stages = Some bad"
  shows "runLine UpFront e reg st line =
           \<lparr>result = Inr (notFound (commandName bad)), state = st, trace = []\<rparr>"
  using assms by (simp add: runLine_def)

lemma first_stage_unresolved:
  "result (runLine ord offline builtins emptyVfs ''nosuchcmd | echo x'') =
     Inr \<lparr>stdout = [], stderr = ''nosuchcmd: command not found\<newline>'', exitCode = 127\<rparr>
   \<and> trace (runLine ord offline builtins emptyVfs ''nosuchcmd | echo x'') = []"
proof -
  have p: "parseLine ''nosuchcmd | echo x'' =
      Inr [\<lparr>commandName = ''nosuchcmd'', args = [], redirect = None\<rparr>,
           \<lparr>commandName = ''echo'', args = [''x''], redirect = None\<rparr>]"
    by code_simp
  have m: "map_of builtins ''nosuchcmd'' = None"
    by (simp add: builtins_def)
  show ?thesis
    using p m by (cases ord) (simp_all add: runLine_def firstUnresolved_def notFound_def)
qed

lemma orders_differ:
  "result (runLine UpFront offline builtins emptyVfs ''cat /missing | nosuchcmd'') =
     Inr \<lparr>stdout = [], stderr = ''nosuchcmd: command not found\<newline>'', exitCode = 127\<rparr>
   \<and> result (runLine WhenReached offline builtins emptyVfs ''cat /missing | nosuchcmd'') =
     Inr \<lparr>stdout = [], stderr = ''cat: /missing: No such file\<newline>'', exitCode = 1\<rparr>"
proof -
  have p: "parseLine ''cat /missing | nosuchcmd'' =
       Inr [\<lparr>commandName = ''cat'', args = [''/missing''], redirect = None\<rparr>,
            \<lparr>commandName = ''nosuchcmd'', args = [], redirect = None\<rparr>]"
    by code_simp
  have m: "map_of builtins ''nosuchcmd'' = None"
    by (simp add: builtins_def)
  have c: "map_of builtins ''cat'' = Some cat_cmd"
    by (simp add: builtins_def)
  have rd: "vfs_read emptyVfs ''/missing'' = Inl (JsError ''ENOENT'')"
    by (simp add: vfs_read_def emptyVfs_def)
  have "cat_cmd offline (sort (map fst builtins)) [''/missing''] (stdout start) emptyVfs =
      (Inr \<lparr>r_stdout = None, r_stderr = Some ''cat: /missing: No such file\<newline>'',
            r_exitCode = Some 1\<rparr>, emptyVfs)"
    using rd by (simp add: cat_cmd_def helpFlag_def)
  then have "outcome (runStages offline builtins emptyVfs start
       [\<lparr>commandName = ''cat'', args = [''/missing''], redirect = None\<rparr>,
        \<lparr>commandName = ''nosuchcmd'', args = [], redirect = None\<rparr>]) =
       \<lparr>stdout = [], stderr = ''cat: /missing: No such file\<newline>'', exitCode = 1\<rparr>"
    using c by (simp add: withDefaults_def)
  then show ?thesis
    using p m c by (simp add: runLine_def firstUnresolved_def notFound_def Let_def del: runStages.simps)
qed

end
